theory Spec2Isabelle
  imports Complex_Main "HOL-Library.Char_ord" "HOL-Library.List_Lexorder"
    "HOL-Library.Product_Lexorder" "HOL-Library.Multiset"
begin

section \<open>NRL Picks 2.0: the pricing, staking and reporting pipeline of nrl\_picks\_v2.py\<close>

text \<open>
  The embedding follows \<^verbatim>\<open>src/.github/workflows/nrl_picks_v2.py\<close> function by function.
  Conventions of the model:
  \<^item> In the aggregator, the stake sizing and the exact-arithmetic readings of the
    probability utilities, Python's \<^verbatim>\<open>float\<close> is \<^typ>\<open>real\<close> and every operation is exact:
    IEEE-754 rounding, overflow, infinities and NaN are not in that part of the model.
  \<^item> Values that arrive from JSON and are tested with \<^verbatim>\<open>isinstance(x,(int,float))\<close> are
    values of the datatype \<open>pyval\<close>.
  \<^item> The module constants read from the environment (\<^verbatim>\<open>MAX_KELLY\<close>, \<^verbatim>\<open>EDGE_MIN\<close>,
    \<^verbatim>\<open>KELLY_FACTOR\<close>, \<^verbatim>\<open>BANKROLL\<close>) are parameters of the functions that read them.
  \<^item> A \<^verbatim>\<open>continue\<close> of a loop body is the value \<open>None\<close> of that body; a raised
    exception is \<open>Inl\<close> of a sum.
  \<^item> The body of \<^verbatim>\<open>run_elo\<close> (lines 69 to 80) reads the away score of a history row as
    \<^verbatim>\<open>r.as\<close> on lines 74, 75 and 77. \<^verbatim>\<open>as\<close> is a reserved word of Python 3, so that text
    is not a Python program and the parser rejects the module there. \<^verbatim>\<open>run_elo\<close> and its
    callers \<^verbatim>\<open>tune_elo\<close> and the training step of \<^verbatim>\<open>main\<close> are therefore not embedded;
    the functions embedded below are those whose text is valid, with the ratings and the
    home-field advantage as parameters.
\<close>

subsection \<open>Python values\<close>

text \<open>
  The JSON values a price can be. \<^verbatim>\<open>isinstance(x,(int,float))\<close> holds for \<^verbatim>\<open>int\<close>,
  \<^verbatim>\<open>float\<close> and, since \<^verbatim>\<open>bool\<close> is a subclass of \<^verbatim>\<open>int\<close>, for \<^verbatim>\<open>True\<close> and \<^verbatim>\<open>False\<close>,
  which compare as 1 and 0.
\<close>

datatype pyval = PNone | PBool bool | PInt int | PFloat real | PStr string

fun num_of :: "pyval \<Rightarrow> real option" where
  "num_of (PInt i) = Some (real_of_int i)"
| "num_of (PFloat x) = Some x"
| "num_of (PBool b) = Some (if b then 1 else 0)"
| "num_of PNone = None"
| "num_of (PStr s) = None"

definition isnum :: "pyval \<Rightarrow> bool" where
  "isnum v = (num_of v \<noteq> None)"

definition numval :: "pyval \<Rightarrow> real" where
  "numval v = (case num_of v of Some x \<Rightarrow> x | None \<Rightarrow> 0)"

subsection \<open>Probability utilities (lines 23 to 28)\<close>

text \<open>\<^verbatim>\<open>def logistic(x): return 1.0/(1.0+10.0**(-x/400.0))\<close>\<close>

definition logistic :: "real \<Rightarrow> real" where
  "logistic x = 1 / (1 + 10 powr (- x / 400))"

text \<open>
  \<^verbatim>\<open>devig_two_way\<close> returns the tuple \<^verbatim>\<open>(None,None)\<close> or a tuple of two floats; the
  model returns a pair of options.
\<close>

definition devig_two_way :: "pyval \<Rightarrow> pyval \<Rightarrow> real option \<times> real option" where
  "devig_two_way a b =
     (if \<not> (isnum a \<and> isnum b) then (None, None)
      else if numval a \<le> 1 \<or> numval b \<le> 1 then (None, None)
      else (let pa = 1 / numval a; pb = 1 / numval b; s = pa + pb
            in (Some (pa / s), Some (pb / s))))"

subsection \<open>Stake sizing (lines 30 to 35)\<close>

text \<open>The first argument is the module constant \<^verbatim>\<open>MAX_KELLY\<close>.\<close>

definition kelly_fraction :: "real \<Rightarrow> real \<Rightarrow> real \<Rightarrow> real \<Rightarrow> real" where
  "kelly_fraction MAX_KELLY p odds k =
     (if odds \<le> 1 then 0
      else (let b = odds - 1;
                f = (p * (b + 1) - 1) / b;
                f' = max 0 (k * f)
            in min f' MAX_KELLY))"

subsection \<open>The rating dictionary\<close>

text \<open>
  The dictionary \<^verbatim>\<open>ratings\<close> and its read \<^verbatim>\<open>ratings.get(name, 1500.0)\<close> (line 124). The
  dictionary and the home-field advantage \<^verbatim>\<open>params["HFA"]\<close> are parameters of the
  aggregator below: \<^verbatim>\<open>main\<close> takes them from \<^verbatim>\<open>run_elo\<close> and \<^verbatim>\<open>tune_elo\<close> or, with no
  history, sets them to the empty dictionary and 60.
\<close>

type_synonym ratings = "string \<rightharpoonup> real"

definition rating_get :: "ratings \<Rightarrow> string \<Rightarrow> real" where
  "rating_get rs t = (case rs t of Some r \<Rightarrow> r | None \<Rightarrow> 1500)"

subsection \<open>The quote records of an upcoming contest (lines 105 to 119)\<close>

text \<open>
  An event of the odds feed, as \<^verbatim>\<open>main\<close> reads it: \<^verbatim>\<open>ev.get("home_team")\<close>,
  \<^verbatim>\<open>ev.get("away_team")\<close>, \<^verbatim>\<open>ev.get("bookmakers",[])\<close>, each bookmaker's \<^verbatim>\<open>key\<close> and
  \<^verbatim>\<open>markets\<close>, each market's \<^verbatim>\<open>key\<close> and \<^verbatim>\<open>outcomes\<close>, each outcome's \<^verbatim>\<open>name\<close> and
  \<^verbatim>\<open>price\<close>. A key read with \<^verbatim>\<open>.get\<close> may be absent, which is \<open>None\<close> (for a price,
  \<open>PNone\<close>). The field \<open>kickoff\<close> is the aware datetime \<^verbatim>\<open>to_aest(ev["commence_time"])\<close>:
  parsing and time-zone conversion are done by the standard library and are not modelled
  (a missing or malformed \<^verbatim>\<open>commence_time\<close> raises there). Two datetimes of the same zone
  compare by their fields, most significant first.
\<close>

datatype py_error = KeyError | TypeError

record outcome =
  name :: "string option"
  price :: pyval

record market =
  market_key :: "string option"
  outcomes :: "outcome list"

record bookmaker =
  book_key :: "string option"
  markets :: "market list"

record datetime =
  year :: nat
  month :: nat
  day :: nat
  hour :: nat
  minute :: nat
  second :: nat
  microsecond :: nat

record event =
  home_team :: "string option"
  away_team :: "string option"
  kickoff :: datetime
  bookmakers :: "bookmaker list"

definition dt_less :: "datetime \<Rightarrow> datetime \<Rightarrow> bool" where
  "dt_less s t =
     ((year s, month s, day s, hour s, minute s, second s, microsecond s)
        < (year t, month t, day t, hour t, minute t, second t, microsecond t))"

text \<open>
  \<^verbatim>\<open>ko.strftime("%Y-%m-%d %H:%M")\<close>: the fields down to the minute, zero-padded (four
  digits for a year from 1000 to 9999); seconds and microseconds are not printed.
\<close>

definition digit :: "nat \<Rightarrow> char" where
  "digit d = ''0123456789'' ! (d mod 10)"

definition pad2 :: "nat \<Rightarrow> string" where
  "pad2 v = [digit (v div 10), digit v]"

definition pad4 :: "nat \<Rightarrow> string" where
  "pad4 v = [digit (v div 1000), digit (v div 100), digit (v div 10), digit v]"

definition strftime_ymdhm :: "datetime \<Rightarrow> string" where
  "strftime_ymdhm t =
     pad4 (year t) @ ''-'' @ pad2 (month t) @ ''-'' @ pad2 (day t) @ '' ''
       @ pad2 (hour t) @ '':'' @ pad2 (minute t)"

text \<open>
  \<^verbatim>\<open>round(x, nd)\<close> on exact reals: to the nearest multiple of \<open>10 ^ -nd\<close>, a tie going to
  the even one.
\<close>

definition py_round :: "real \<Rightarrow> nat \<Rightarrow> real" where
  "py_round x nd =
     (let s = x * 10 ^ nd; f = \<lfloor>s\<rfloor>; d = s - of_int f
      in (if d < 1 / 2 then of_int f
          else if 1 / 2 < d then of_int (f + 1)
          else if even f then of_int f else of_int (f + 1)) / 10 ^ nd)"

text \<open>
  Line 115 builds \<^verbatim>\<open>d={o.get("name"):o.get("price") for o in ...}\<close>, in which a later
  outcome of the same name replaces an earlier one; line 116 reads \<^verbatim>\<open>d.get(team)\<close>.
\<close>

definition dict_get :: "outcome list \<Rightarrow> string \<Rightarrow> pyval" where
  "dict_get outs team =
     (case map_of (rev (map (\<lambda>oc. (name oc, price oc)) outs)) (Some team) of
        None \<Rightarrow> PNone
      | Some v \<Rightarrow> v)"

text \<open>
  The state of the two loops over bookmakers and markets is
  \<^verbatim>\<open>(best_home, book_h, best_away, book_a)\<close>, all \<^verbatim>\<open>None\<close> at the start. \<open>market_body\<close> is
  the body of the inner loop, lines 114 to 118.
\<close>

type_synonym best = "pyval \<times> string option \<times> pyval \<times> string option"

definition market_body :: "string \<Rightarrow> string \<Rightarrow> string option \<Rightarrow> best \<Rightarrow> market \<Rightarrow> best" where
  "market_body hm aw bkey st m =
     (if market_key m \<noteq> Some ''h2h'' then st
      else (case st of (best_home, book_h, best_away, book_a) \<Rightarrow>
        (let ph = dict_get (outcomes m) hm;
             pa = dict_get (outcomes m) aw;
             (best_home', book_h') =
                (if isnum ph \<and> (best_home = PNone \<or> numval ph > numval best_home)
                 then (ph, bkey) else (best_home, book_h));
             (best_away', book_a') =
                (if isnum pa \<and> (best_away = PNone \<or> numval pa > numval best_away)
                 then (pa, bkey) else (best_away, book_a))
         in (best_home', book_h', best_away', book_a'))))"

definition best_prices :: "string \<Rightarrow> string \<Rightarrow> bookmaker list \<Rightarrow> best" where
  "best_prices hm aw bks =
     foldl (\<lambda>st bk. foldl (market_body hm aw (book_key bk)) st (markets bk))
       (PNone, None, PNone, None) bks"

subsection \<open>The pick aggregator (lines 105 to 155)\<close>

text \<open>
  A row of the report, with the columns of lines 138 to 153 in order. \<open>Pick\<close> is
  \<^verbatim>\<open>f"{side} {dash} {sel}"\<close>, the dash being U+2014, written here as its three UTF-8 bytes.
\<close>

record pick_row =
  Generated :: string
  Kickoff :: string
  Match :: string
  Pick :: string
  Book :: "string option"
  Best_Odds :: pyval
  Market_p :: real
  Model_p :: real
  Edge :: real
  Kelly_pct :: real
  Stake :: real
  Potential_Profit :: real
  Potential_Return :: real
  EV_Profit :: real

text \<open>
  Lines 106 to 122 of the loop body: the contest is skipped (\<open>Inr None\<close>, the source's
  \<^verbatim>\<open>continue\<close>) when a team name is missing or empty, when a side has no numeric price, or
  when de-vigorization returns \<^verbatim>\<open>(None, None)\<close>. Otherwise the result is the contest's
  quote \<^verbatim>\<open>(home, away, best_home, book_h, best_away, book_a, m_home, m_away)\<close>. Were
  \<^verbatim>\<open>m_home\<close> a number and \<^verbatim>\<open>m_away\<close> \<^verbatim>\<open>None\<close>, line 126 would raise \<^verbatim>\<open>TypeError\<close>.
\<close>

type_synonym quote = "string \<times> string \<times> pyval \<times> string option \<times> pyval \<times> string option \<times> real \<times> real"

definition quote_event :: "event \<Rightarrow> py_error + quote option" where
  "quote_event ev =
     (case (home_team ev, away_team ev) of
        (Some hm, Some aw) \<Rightarrow>
          if hm = [] \<or> aw = [] then Inr None
          else (case best_prices hm aw (bookmakers ev) of
                  (best_home, book_h, best_away, book_a) \<Rightarrow>
                    if best_home = PNone \<or> best_away = PNone then Inr None
                    else (case devig_two_way best_home best_away of
                            (None, _) \<Rightarrow> Inr None
                          | (Some m_home, None) \<Rightarrow> Inl TypeError
                          | (Some m_home, Some m_away) \<Rightarrow>
                              Inr (Some (hm, aw, best_home, book_h, best_away, book_a,
                                         m_home, m_away))))
      | _ \<Rightarrow> Inr None)"

text \<open>Lines 124 to 126: \<^verbatim>\<open>(p_home, p_away, edge_home, edge_away)\<close>.\<close>

definition model_edges :: "ratings \<Rightarrow> real \<Rightarrow> quote \<Rightarrow> real \<times> real \<times> real \<times> real" where
  "model_edges rs HFA q =
     (case q of (hm, aw, best_home, book_h, best_away, book_a, m_home, m_away) \<Rightarrow>
        (let rh = rating_get rs hm;
             ra = rating_get rs aw;
             p_home = logistic ((rh - ra) + HFA);
             p_away = 1 - p_home;
             edge_home = p_home - m_home;
             edge_away = p_away - m_away
         in (p_home, p_away, edge_home, edge_away)))"

text \<open>Lines 128 to 131: \<^verbatim>\<open>(side, p, price, mp, edge, book, sel)\<close>.\<close>

type_synonym choice = "string \<times> real \<times> pyval \<times> real \<times> real \<times> string option \<times> string"

definition choose_side :: "ratings \<Rightarrow> real \<Rightarrow> quote \<Rightarrow> choice" where
  "choose_side rs HFA q =
     (case q of (hm, aw, best_home, book_h, best_away, book_a, m_home, m_away) \<Rightarrow>
        (case model_edges rs HFA q of (p_home, p_away, edge_home, edge_away) \<Rightarrow>
           if edge_home \<ge> edge_away
           then (''HOME'', p_home, best_home, m_home, edge_home, book_h, hm)
           else (''AWAY'', p_away, best_away, m_away, edge_away, book_a, aw)))"

definition chosen_edge :: "choice \<Rightarrow> real" where
  "chosen_edge c = (case c of (side, p, price_v, mp, edge_v, book, sel) \<Rightarrow> edge_v)"

definition chosen_side :: "choice \<Rightarrow> string" where
  "chosen_side c = (case c of (side, p, price_v, mp, edge_v, book, sel) \<Rightarrow> side)"

text \<open>
  Lines 135 to 153: the stake and the row. \<open>now\<close> is the string \<^verbatim>\<open>now_aest_str()\<close> returns,
  one clock reading for the run.
\<close>

definition make_row :: "real \<Rightarrow> real \<Rightarrow> real \<Rightarrow> string \<Rightarrow> datetime \<Rightarrow> string \<Rightarrow> string \<Rightarrow> choice \<Rightarrow> pick_row" where
  "make_row MAX_KELLY KELLY_FACTOR BANKROLL now ko hm aw c =
     (case c of (side, p, price_v, mp, edge_v, book, sel) \<Rightarrow>
        (let stake_frac = kelly_fraction MAX_KELLY p (numval price_v) KELLY_FACTOR;
             stake_amt = py_round (BANKROLL * stake_frac) 2
         in \<lparr>Generated = now,
             Kickoff = strftime_ymdhm ko,
             Match = hm @ '' vs '' @ aw,
             Pick = side @ '' '' @ [CHR 0xE2, CHR 0x80, CHR 0x94] @ '' '' @ sel,
             Book = book,
             Best_Odds = price_v,
             Market_p = py_round mp 4,
             Model_p = py_round p 4,
             Edge = py_round edge_v 4,
             Kelly_pct = py_round (stake_frac * 100) 2,
             Stake = stake_amt,
             Potential_Profit = py_round (stake_amt * (numval price_v - 1)) 2,
             Potential_Return = py_round (stake_amt * numval price_v) 2,
             EV_Profit = py_round (stake_amt * (p * (numval price_v - 1) - (1 - p))) 2\<rparr>))"

text \<open>The whole loop body, lines 106 to 153, with the filter of line 133.\<close>

definition event_body :: "real \<Rightarrow> real \<Rightarrow> real \<Rightarrow> real \<Rightarrow> string \<Rightarrow> ratings \<Rightarrow> real \<Rightarrow> event \<Rightarrow> py_error + pick_row option" where
  "event_body EDGE_MIN MAX_KELLY KELLY_FACTOR BANKROLL now rs HFA ev =
     (case quote_event ev of
        Inl e \<Rightarrow> Inl e
      | Inr None \<Rightarrow> Inr None
      | Inr (Some q) \<Rightarrow>
          (case q of (hm, aw, rest) \<Rightarrow>
            (let c = choose_side rs HFA q
             in if chosen_edge c < EDGE_MIN then Inr None
                else Inr (Some (make_row MAX_KELLY KELLY_FACTOR BANKROLL now (kickoff ev) hm aw c)))))"

text \<open>The loop \<^verbatim>\<open>for ev in events\<close> with \<^verbatim>\<open>rows.append\<close>; an exception ends it.\<close>

fun collect_rows :: "(event \<Rightarrow> py_error + pick_row option) \<Rightarrow> event list \<Rightarrow> py_error + pick_row list" where
  "collect_rows body [] = Inr []"
| "collect_rows body (ev # evs) =
     (case body ev of
        Inl e \<Rightarrow> Inl e
      | Inr None \<Rightarrow> collect_rows body evs
      | Inr (Some row) \<Rightarrow>
          (case collect_rows body evs of
             Inl e \<Rightarrow> Inl e
           | Inr rows \<Rightarrow> Inr (row # rows)))"

text \<open>
  Line 155,
  \<^verbatim>\<open>pd.DataFrame(rows).sort_values(["Kickoff (AEST)","Edge"], ascending=[True,False])\<close>:
  a stable sort on the printed kick-off string, then on the rounded edge, larger first.
  The frame built from an empty list has no columns, and sorting it by a column name
  raises \<^verbatim>\<open>KeyError\<close>.
\<close>

definition sort_values :: "pick_row list \<Rightarrow> py_error + pick_row list" where
  "sort_values rows =
     (if rows = [] then Inl KeyError
      else Inr (sort_key (\<lambda>r. (Kickoff r, - Edge r)) rows))"

definition main_picks :: "real \<Rightarrow> real \<Rightarrow> real \<Rightarrow> real \<Rightarrow> string \<Rightarrow> ratings \<Rightarrow> real \<Rightarrow> event list \<Rightarrow> py_error + pick_row list" where
  "main_picks EDGE_MIN MAX_KELLY KELLY_FACTOR BANKROLL now rs HFA events =
     (case collect_rows (event_body EDGE_MIN MAX_KELLY KELLY_FACTOR BANKROLL now rs HFA) events of
        Inl e \<Rightarrow> Inl e
      | Inr rows \<Rightarrow> sort_values rows)"

subsection \<open>Example inputs\<close>

text \<open>
  An event quoted by one bookmaker \<^verbatim>\<open>x\<close> with one \<^verbatim>\<open>h2h\<close> market, and a kick-off on
  1 March 2025 (Brisbane time).
\<close>

definition single_book_event :: "string \<Rightarrow> string \<Rightarrow> datetime \<Rightarrow> real \<Rightarrow> real \<Rightarrow> event" where
  "single_book_event hm aw ko ph pa =
     \<lparr>home_team = Some hm, away_team = Some aw, kickoff = ko,
      bookmakers =
        [\<lparr>book_key = Some ''x'',
          markets =
            [\<lparr>market_key = Some ''h2h'',
              outcomes = [\<lparr>name = Some hm, price = PFloat ph\<rparr>,
                          \<lparr>name = Some aw, price = PFloat pa\<rparr>]\<rparr>]\<rparr>]\<rparr>"

definition march_1st :: "nat \<Rightarrow> nat \<Rightarrow> nat \<Rightarrow> datetime" where
  "march_1st h m s =
     \<lparr>year = 2025, month = 3, day = 1, hour = h, minute = m, second = s, microsecond = 0\<rparr>"

section \<open>Properties\<close>

subsection \<open>The logistic transform in exact arithmetic\<close>

lemma logistic_pos: "0 < logistic x"
  by (simp add: logistic_def add_pos_nonneg)

lemma logistic_lt_one: "logistic x < 1"
  by (simp add: logistic_def add_pos_pos)

lemma logistic_less: "x < y \<Longrightarrow> logistic x < logistic y"
  unfolding logistic_def
  by (intro divide_strict_left_mono) (auto simp: add_pos_nonneg intro!: mult_pos_pos)

lemma logistic_at_zero: "logistic 0 = 1 / 2"
  by (simp add: logistic_def)

lemma logistic_exact_properties:
  "logistic 0 = 1 / 2 \<and> strict_mono logistic \<and> (\<forall>x. 0 < logistic x \<and> logistic x < 1)"
  by (simp add: logistic_at_zero logistic_pos logistic_lt_one strict_mono_def logistic_less)

subsection \<open>De-vigorization in exact arithmetic\<close>

lemma devig_none_iff:
  "(devig_two_way a b = (None, None)) =
     (\<not> isnum a \<or> \<not> isnum b \<or> numval a \<le> 1 \<or> numval b \<le> 1)"
  by (auto simp: devig_two_way_def Let_def)

lemma devig_valid:
  assumes "isnum a" "isnum b" "1 < numval a" "1 < numval b"
  shows "devig_two_way a b =
           (Some ((1 / numval a) / (1 / numval a + 1 / numval b)),
            Some ((1 / numval b) / (1 / numval a + 1 / numval b)))"
  using assms by (simp add: devig_two_way_def Let_def)

lemma renorm_sum:
  fixes x y :: real
  assumes "1 < x" "1 < y"
  shows "(1 / x) / (1 / x + 1 / y) + (1 / y) / (1 / x + 1 / y) = 1"
    and "0 < (1 / x) / (1 / x + 1 / y)" and "(1 / x) / (1 / x + 1 / y) < 1"
proof -
  have px: "0 < 1 / x" and py: "0 < 1 / y" using assms by simp_all
  then have s: "0 < 1 / x + 1 / y" by linarith
  have "(1 / x) / (1 / x + 1 / y) + (1 / y) / (1 / x + 1 / y)
          = (1 / x + 1 / y) / (1 / x + 1 / y)"
    by (rule add_divide_distrib [symmetric])
  also have "\<dots> = 1" using s by simp
  finally show "(1 / x) / (1 / x + 1 / y) + (1 / y) / (1 / x + 1 / y) = 1" .
  show "0 < (1 / x) / (1 / x + 1 / y)" using px s by simp
  have "1 / x < 1 / x + 1 / y" using py by linarith
  then show "(1 / x) / (1 / x + 1 / y) < 1" using s by (simp only: divide_less_eq_1_pos)
qed

lemma devig_some:
  assumes "devig_two_way a b = (Some x, y)"
  shows "\<exists>z. y = Some z \<and> x + z = 1 \<and> 0 < x \<and> x < 1 \<and> 0 < z \<and> z < 1
             \<and> isnum a \<and> isnum b \<and> 1 < numval a \<and> 1 < numval b"
proof -
  from assms have ne: "devig_two_way a b \<noteq> (None, None)" by simp
  then have v: "isnum a" "isnum b" "1 < numval a" "1 < numval b"
    by (simp_all add: devig_none_iff not_le)
  have c: "1 / numval a + 1 / numval b = 1 / numval b + 1 / numval a" by simp
  from devig_valid [OF v] assms
  have x: "x = (1 / numval a) / (1 / numval a + 1 / numval b)"
    and y: "y = Some ((1 / numval b) / (1 / numval a + 1 / numval b))" by simp_all
  show ?thesis
    using v renorm_sum [OF v(3,4)] renorm_sum(2,3) [OF v(4,3)] unfolding c x y by blast
qed

lemma devig_two_way_exact:
  "((devig_two_way a b = (None, None)) =
      (\<not> isnum a \<or> \<not> isnum b \<or> numval a \<le> 1 \<or> numval b \<le> 1))
   \<and> devig_two_way (PFloat 1) (PFloat 2) = (None, None)
   \<and> devig_two_way (PInt 0) (PFloat 2) = (None, None)
   \<and> (isnum a \<and> isnum b \<and> 1 < numval a \<and> 1 < numval b \<longrightarrow>
        (\<exists>pa pb. devig_two_way a b = (Some pa, Some pb)
           \<and> pa = (1 / numval a) / (1 / numval a + 1 / numval b)
           \<and> pb = (1 / numval b) / (1 / numval a + 1 / numval b)
           \<and> pa + pb = 1 \<and> 0 < pa \<and> pa < 1 \<and> 0 < pb \<and> pb < 1))"
proof (intro conjI impI)
  show "(devig_two_way a b = (None, None)) =
      (\<not> isnum a \<or> \<not> isnum b \<or> numval a \<le> 1 \<or> numval b \<le> 1)"
    by (rule devig_none_iff)
  show "devig_two_way (PFloat 1) (PFloat 2) = (None, None)"
    by (simp add: devig_two_way_def numval_def)
  show "devig_two_way (PInt 0) (PFloat 2) = (None, None)"
    by (simp add: devig_two_way_def numval_def)
next
  assume h: "isnum a \<and> isnum b \<and> 1 < numval a \<and> 1 < numval b"
  let ?x = "numval a" and ?y = "numval b"
  have d: "devig_two_way a b =
      (Some ((1 / ?x) / (1 / ?x + 1 / ?y)), Some ((1 / ?y) / (1 / ?x + 1 / ?y)))"
    using h by (simp add: devig_valid)
  have c: "1 / ?x + 1 / ?y = 1 / ?y + 1 / ?x" by simp
  show "\<exists>pa pb. devig_two_way a b = (Some pa, Some pb)
           \<and> pa = (1 / ?x) / (1 / ?x + 1 / ?y)
           \<and> pb = (1 / ?y) / (1 / ?x + 1 / ?y)
           \<and> pa + pb = 1 \<and> 0 < pa \<and> pa < 1 \<and> 0 < pb \<and> pb < 1"
    using d h renorm_sum [of ?x ?y] renorm_sum(2,3) [of ?y ?x] unfolding c
    by blast
qed

subsection \<open>The capped fractional Kelly stake\<close>

lemma kelly_nonneg: "0 \<le> M \<Longrightarrow> 0 \<le> kelly_fraction M p odds k"
  by (simp add: kelly_fraction_def Let_def)

lemma kelly_le_cap: "0 \<le> M \<Longrightarrow> kelly_fraction M p odds k \<le> M"
  by (simp add: kelly_fraction_def Let_def)

text \<open>
  Claim C7, as amended. \<^verbatim>\<open>kelly_fraction(p, price, k)\<close> is 0 when the price is at most 1;
  otherwise it is \<open>k\<close> times the full-Kelly fraction \<open>(p * (b + 1) - 1) / b\<close> with
  \<open>b = price - 1\<close>, floored at 0 and capped at \<^verbatim>\<open>MAX_KELLY\<close>, and then it never exceeds the
  cap. When the configured cap is not negative, the result is never negative and never
  above the cap, for every \<open>p\<close>, price and \<open>k\<close>.
\<close>

theorem C7_kelly_fraction:
  "(odds \<le> 1 \<longrightarrow> kelly_fraction MAX_KELLY p odds k = 0)
   \<and> (1 < odds \<longrightarrow>
        kelly_fraction MAX_KELLY p odds k =
          min (max 0 (k * ((p * ((odds - 1) + 1) - 1) / (odds - 1)))) MAX_KELLY
        \<and> kelly_fraction MAX_KELLY p odds k \<le> MAX_KELLY)
   \<and> (0 \<le> MAX_KELLY \<longrightarrow>
        0 \<le> kelly_fraction MAX_KELLY p odds k \<and> kelly_fraction MAX_KELLY p odds k \<le> MAX_KELLY)"
  by (simp add: kelly_nonneg kelly_le_cap) (simp add: kelly_fraction_def Let_def)

text \<open>
  The claim C7 as stated fails for a negative cap, which nothing in the program excludes
  (\<^verbatim>\<open>MAX_KELLY\<close> is read from the environment without a check): with the cap -0.01 the
  stake at \<open>p = 0.6\<close> and price 2.10 is -0.01, a negative number, and the stake 0 at
  price 1 is above the cap.
\<close>

theorem C7_kelly_fraction_counterexample:
  "kelly_fraction (- 1 / 100) (3 / 5) (21 / 10) (1 / 2) = - 1 / 100
   \<and> kelly_fraction (- 1 / 100) (3 / 5) (21 / 10) (1 / 2) < 0
   \<and> kelly_fraction (- 1 / 100) (3 / 5) 1 (1 / 2) = 0
   \<and> \<not> kelly_fraction (- 1 / 100) (3 / 5) 1 (1 / 2) \<le> - 1 / 100"
  by (simp add: kelly_fraction_def Let_def)

theorem C7_kelly_fraction_witness:
  "(1::real) < 21/10 \<and> (0::real) \<le> 1/50
   \<and> kelly_fraction (1/50) (3/5) (21/10) (1/2) = 1/50
   \<and> kelly_fraction (1/50) (3/5) 1 (1/2) = 0
   \<and> kelly_fraction (1/50) (2/5) (21/10) (1/2) = 0"
  using C7_kelly_fraction [of "21/10" "1/50" "3/5" "1/2"]
    C7_kelly_fraction [of 1 "1/50" "3/5" "1/2"]
    C7_kelly_fraction [of "21/10" "1/50" "2/5" "1/2"]
  by simp

subsection \<open>The loop body of the aggregator\<close>

lemma quote_event_devig:
  assumes "quote_event ev = Inr (Some (hm, aw, bh, kh, ba, ka, mh, ma))"
  shows "devig_two_way bh ba = (Some mh, Some ma)"
    and "home_team ev = Some hm" and "away_team ev = Some aw"
    and "best_prices hm aw (bookmakers ev) = (bh, kh, ba, ka)"
  using assms
  by (auto simp: quote_event_def split: option.splits if_splits prod.splits)

lemma quote_sum_one:
  assumes "quote_event ev = Inr (Some (hm, aw, bh, kh, ba, ka, mh, ma))"
  shows "mh + ma = 1"
  using devig_some [OF quote_event_devig(1) [OF assms]] by simp

lemma model_edges_sum:
  assumes "quote_event ev = Inr (Some q)"
  shows "case model_edges rs HFA q of (p_home, p_away, edge_home, edge_away) \<Rightarrow>
            p_home + p_away = 1 \<and> edge_home + edge_away = 0"
proof -
  obtain hm aw bh kh ba ka mh ma where q: "q = (hm, aw, bh, kh, ba, ka, mh, ma)"
    by (cases q) auto
  from quote_sum_one [OF assms [unfolded q]] show ?thesis
    by (simp add: q model_edges_def Let_def)
qed

lemma choose_side_edge:
  "model_edges rs HFA q = (ph, pa, eh, ea) \<Longrightarrow>
     chosen_edge (choose_side rs HFA q) = max eh ea
     \<and> (chosen_side (choose_side rs HFA q) = ''HOME'') = (ea \<le> eh)
     \<and> (chosen_side (choose_side rs HFA q) = ''AWAY'') = (eh < ea)"
  by (cases q) (auto simp: choose_side_def chosen_edge_def chosen_side_def split: if_splits)

lemma event_body_quote:
  "quote_event ev = Inr (Some q) \<Longrightarrow>
     event_body EDGE_MIN MAX_KELLY KELLY_FACTOR BANKROLL now rs HFA ev =
       (if chosen_edge (choose_side rs HFA q) < EDGE_MIN then Inr None
        else Inr (Some (make_row MAX_KELLY KELLY_FACTOR BANKROLL now (kickoff ev)
                          (fst q) (fst (snd q)) (choose_side rs HFA q))))"
  by (cases q) (simp add: event_body_def Let_def)

lemma make_row_keys:
  "Kickoff (make_row MAX_KELLY KELLY_FACTOR BANKROLL now ko hm aw c) = strftime_ymdhm ko"
  "Edge (make_row MAX_KELLY KELLY_FACTOR BANKROLL now ko hm aw c) = py_round (chosen_edge c) 4"
  "Match (make_row MAX_KELLY KELLY_FACTOR BANKROLL now ko hm aw c) = hm @ '' vs '' @ aw"
  by (cases c; simp add: make_row_def chosen_edge_def Let_def)+

lemma main_picks_Inr:
  assumes "main_picks EDGE_MIN MAX_KELLY KELLY_FACTOR BANKROLL now rs HFA events = Inr out"
  shows "\<exists>rows. collect_rows (event_body EDGE_MIN MAX_KELLY KELLY_FACTOR BANKROLL now rs HFA) events = Inr rows
            \<and> rows \<noteq> [] \<and> out = sort_key (\<lambda>r. (Kickoff r, - Edge r)) rows"
  using assms by (auto simp: main_picks_def sort_values_def split: sum.splits if_splits)

lemma edges_exact_sum_zero:
  "quote_event ev = Inr (Some q) \<longrightarrow>
     (case model_edges rs HFA q of (p_home, p_away, edge_home, edge_away) \<Rightarrow>
        p_away = 1 - p_home \<and> edge_home + edge_away = 0
        \<and> (0 < EDGE_MIN \<longrightarrow> \<not> (EDGE_MIN \<le> edge_home \<and> EDGE_MIN \<le> edge_away)))"
proof
  assume a: "quote_event ev = Inr (Some q)"
  obtain ph pa eh ea where m: "model_edges rs HFA q = (ph, pa, eh, ea)"
    by (cases "model_edges rs HFA q") auto
  from model_edges_sum [OF a, of rs HFA] have s: "ph + pa = 1" "eh + ea = 0"
    by (simp_all add: m)
  then show "case model_edges rs HFA q of (p_home, p_away, edge_home, edge_away) \<Rightarrow>
        p_away = 1 - p_home \<and> edge_home + edge_away = 0
        \<and> (0 < EDGE_MIN \<longrightarrow> \<not> (EDGE_MIN \<le> edge_home \<and> EDGE_MIN \<le> edge_away))"
    by (auto simp: m)
qed

lemma side_and_threshold:
  "quote_event ev = Inr (Some q) \<longrightarrow>
     (case model_edges rs HFA q of (p_home, p_away, edge_home, edge_away) \<Rightarrow>
        chosen_edge (choose_side rs HFA q) = max edge_home edge_away
        \<and> (chosen_side (choose_side rs HFA q) = ''HOME'') = (edge_away \<le> edge_home)
        \<and> (chosen_side (choose_side rs HFA q) = ''AWAY'') = (edge_home < edge_away)
        \<and> (\<exists>row. event_body EDGE_MIN MAX_KELLY KELLY_FACTOR BANKROLL now rs HFA ev = Inr (Some row))
            = (EDGE_MIN \<le> max edge_home edge_away)
        \<and> (EDGE_MIN \<le> max edge_home edge_away \<longrightarrow>
             event_body EDGE_MIN MAX_KELLY KELLY_FACTOR BANKROLL now rs HFA ev
               = Inr (Some (make_row MAX_KELLY KELLY_FACTOR BANKROLL now (kickoff ev)
                              (fst q) (fst (snd q)) (choose_side rs HFA q))))
        \<and> (max edge_home edge_away < EDGE_MIN \<longrightarrow>
             event_body EDGE_MIN MAX_KELLY KELLY_FACTOR BANKROLL now rs HFA ev = Inr None
             \<and> collect_rows (event_body EDGE_MIN MAX_KELLY KELLY_FACTOR BANKROLL now rs HFA) (ev # evs)
                = collect_rows (event_body EDGE_MIN MAX_KELLY KELLY_FACTOR BANKROLL now rs HFA) evs))"
proof
  assume a: "quote_event ev = Inr (Some q)"
  obtain ph pa eh ea where m: "model_edges rs HFA q = (ph, pa, eh, ea)"
    by (cases "model_edges rs HFA q") auto
  note c = choose_side_edge [OF m]
  note b = event_body_quote [OF a, of EDGE_MIN MAX_KELLY KELLY_FACTOR BANKROLL now rs HFA]
  from c have ce: "chosen_edge (choose_side rs HFA q) = max eh ea" by simp
  show "case model_edges rs HFA q of (p_home, p_away, edge_home, edge_away) \<Rightarrow>
        chosen_edge (choose_side rs HFA q) = max edge_home edge_away
        \<and> (chosen_side (choose_side rs HFA q) = ''HOME'') = (edge_away \<le> edge_home)
        \<and> (chosen_side (choose_side rs HFA q) = ''AWAY'') = (edge_home < edge_away)
        \<and> (\<exists>row. event_body EDGE_MIN MAX_KELLY KELLY_FACTOR BANKROLL now rs HFA ev = Inr (Some row))
            = (EDGE_MIN \<le> max edge_home edge_away)
        \<and> (EDGE_MIN \<le> max edge_home edge_away \<longrightarrow>
             event_body EDGE_MIN MAX_KELLY KELLY_FACTOR BANKROLL now rs HFA ev
               = Inr (Some (make_row MAX_KELLY KELLY_FACTOR BANKROLL now (kickoff ev)
                              (fst q) (fst (snd q)) (choose_side rs HFA q))))
        \<and> (max edge_home edge_away < EDGE_MIN \<longrightarrow>
             event_body EDGE_MIN MAX_KELLY KELLY_FACTOR BANKROLL now rs HFA ev = Inr None
             \<and> collect_rows (event_body EDGE_MIN MAX_KELLY KELLY_FACTOR BANKROLL now rs HFA) (ev # evs)
                = collect_rows (event_body EDGE_MIN MAX_KELLY KELLY_FACTOR BANKROLL now rs HFA) evs)"
    unfolding m prod.case
    using c by (simp add: b ce not_less [symmetric])
qed

subsection \<open>Rounding and sorting\<close>

lemma half_even_bounds:
  fixes s :: real
  assumes "of_int f \<le> s" "s < of_int f + 1"
  shows "s - 1 / 2 \<le> (if s - of_int f < 1 / 2 then of_int f
                        else if 1 / 2 < s - of_int f then of_int (f + 1)
                        else if even f then of_int f else of_int (f + 1))
       \<and> (if s - of_int f < 1 / 2 then of_int f
          else if 1 / 2 < s - of_int f then of_int (f + 1)
          else if even f then of_int f else of_int (f + 1)) \<le> s + 1 / 2"
proof -
  define g :: real where "g = of_int f"
  have g1: "of_int (f + 1) = g + 1" by (simp add: g_def)
  show ?thesis using assms unfolding g1 g_def [symmetric]
    by (cases "s - g < 1 / 2"; cases "1 / 2 < s - g"; cases "even f"; simp)
qed

lemma py_round_bounds:
  "x - 1 / (2 * 10 ^ nd) \<le> py_round x nd \<and> py_round x nd \<le> x + 1 / (2 * 10 ^ nd)"
proof -
  define s where "s = x * 10 ^ nd"
  define r :: real where "r = (if s - of_int \<lfloor>s\<rfloor> < 1 / 2 then of_int \<lfloor>s\<rfloor>
             else if 1 / 2 < s - of_int \<lfloor>s\<rfloor> then of_int (\<lfloor>s\<rfloor> + 1)
             else if even \<lfloor>s\<rfloor> then of_int \<lfloor>s\<rfloor> else of_int (\<lfloor>s\<rfloor> + 1))"
  have "of_int \<lfloor>s\<rfloor> \<le> s" "s < of_int \<lfloor>s\<rfloor> + 1" by linarith+
  then have r: "s - 1 / 2 \<le> r \<and> r \<le> s + 1 / 2" unfolding r_def by (rule half_even_bounds)
  have p: "(0::real) < 10 ^ nd" by simp
  have e: "py_round x nd = r / 10 ^ nd" by (simp add: py_round_def Let_def r_def s_def)
  have lo: "(s - 1 / 2) / 10 ^ nd \<le> r / 10 ^ nd"
    using r p by (intro divide_right_mono) simp_all
  have hi: "r / 10 ^ nd \<le> (s + 1 / 2) / 10 ^ nd"
    using r p by (intro divide_right_mono) simp_all
  have a: "(s - 1 / 2) / 10 ^ nd = x - 1 / (2 * 10 ^ nd)"
    by (simp add: s_def diff_divide_distrib)
  have b: "(s + 1 / 2) / 10 ^ nd = x + 1 / (2 * 10 ^ nd)"
    by (simp add: s_def add_divide_distrib)
  show ?thesis using lo hi unfolding e a b by simp
qed

lemma py_round_gap:
  assumes "x + 1 / 10 ^ nd < y"
  shows "py_round x nd < py_round y nd"
proof -
  have "py_round x nd \<le> x + 1 / (2 * 10 ^ nd)" using py_round_bounds by blast
  moreover have "y - 1 / (2 * 10 ^ nd) \<le> py_round y nd" using py_round_bounds by blast
  moreover have "(1::real) / 10 ^ nd = 1 / (2 * 10 ^ nd) + 1 / (2 * 10 ^ nd)" by simp
  ultimately show ?thesis using assms by linarith
qed

lemma sorted_pick_keys:
  assumes "sorted (map (\<lambda>r. (Kickoff r, - Edge r)) out)" "i < j" "j < length out"
  shows "Kickoff (out ! i) \<le> Kickoff (out ! j)"
    and "Kickoff (out ! i) = Kickoff (out ! j) \<Longrightarrow> Edge (out ! j) \<le> Edge (out ! i)"
proof -
  from assms have "(Kickoff (out ! i), - Edge (out ! i)) \<le> (Kickoff (out ! j), - Edge (out ! j))"
    by (auto simp: sorted_iff_nth_mono dest!: spec [of _ i] spec [of _ j])
  then show "Kickoff (out ! i) \<le> Kickoff (out ! j)"
    and "Kickoff (out ! i) = Kickoff (out ! j) \<Longrightarrow> Edge (out ! j) \<le> Edge (out ! i)"
    by (auto simp: less_eq_prod_def)
qed

lemma sort_two:
  "sort_key f [a, b] = (if f a \<le> f b then [a, b] else [b, a])"
  by simp

subsection \<open>The example contests, with no history\<close>

lemma logistic_60_bounds: "4 / 7 < logistic 60 \<and> logistic 60 < 3 / 5"
proof -
  let ?x = "(10::real) powr (- 60 / 400)"
  have pos: "0 < ?x" by simp
  have "?x powr 20 = 10 powr (- 3)" by (simp add: powr_powr)
  also have "\<dots> = 1 / 1000" by (simp add: powr_minus_divide)
  finally have p20: "?x powr 20 = 1 / 1000" .
  have "?x ^ 20 = ?x powr (real 20)" using pos by (simp only: powr_realpow)
  then have x20: "?x ^ 20 = 1 / 1000" using p20 by simp
  have up: "?x < 3 / 4"
  proof (rule ccontr)
    assume "\<not> ?x < 3 / 4"
    then have "(3 / 4) ^ 20 \<le> ?x ^ 20" by (intro power_mono) simp_all
    then show False unfolding x20 by (simp add: power_divide)
  qed
  have lo: "2 / 3 < ?x"
  proof (rule ccontr)
    assume "\<not> 2 / 3 < ?x"
    then have "?x ^ 20 \<le> (2 / 3) ^ 20" using pos by (intro power_mono) simp_all
    then show False unfolding x20 by (simp add: power_divide)
  qed
  from up have "1 + ?x < 7 / 4" by simp
  then have "1 / (7 / 4) < 1 / (1 + ?x)"
    using pos by (intro divide_strict_left_mono) (simp_all add: add_pos_pos)
  moreover from lo have "5 / 3 < 1 + ?x" by simp
  then have "1 / (1 + ?x) < 1 / (5 / 3)"
    using pos by (intro divide_strict_left_mono) (simp_all add: add_pos_pos)
  ultimately show ?thesis by (simp add: logistic_def)
qed

lemma quote_single_book:
  assumes "hm \<noteq> []" "aw \<noteq> []" "hm \<noteq> aw" "1 < ph" "1 < pa"
  shows "quote_event (single_book_event hm aw ko ph pa) =
           Inr (Some (hm, aw, PFloat ph, Some ''x'', PFloat pa, Some ''x'',
                      (1 / ph) / (1 / ph + 1 / pa), (1 / pa) / (1 / ph + 1 / pa)))"
proof -
  have b: "best_prices hm aw (bookmakers (single_book_event hm aw ko ph pa))
             = (PFloat ph, Some ''x'', PFloat pa, Some ''x'')"
    using assms(3)
    by (simp add: single_book_event_def best_prices_def market_body_def dict_get_def
        isnum_def Let_def)
  have d: "devig_two_way (PFloat ph) (PFloat pa)
             = (Some ((1 / ph) / (1 / ph + 1 / pa)), Some ((1 / pa) / (1 / ph + 1 / pa)))"
    using assms(4,5) devig_valid [of "PFloat ph" "PFloat pa"]
    by (simp add: isnum_def numval_def)
  have h: "home_team (single_book_event hm aw ko ph pa) = Some hm"
    "away_team (single_book_event hm aw ko ph pa) = Some aw"
    by (simp_all add: single_book_event_def)
  show ?thesis
    using assms(1,2) by (simp add: quote_event_def h b d)
qed

lemma model_edges_flat:
  "model_edges Map.empty HFA (hm, aw, bh, kh, ba, ka, mh, ma)
     = (logistic HFA, 1 - logistic HFA, logistic HFA - mh, 1 - logistic HFA - ma)"
  by (simp add: model_edges_def rating_get_def Let_def)

lemma kickoff_single_book [simp]: "kickoff (single_book_event hm aw ko ph pa) = ko"
  by (simp add: single_book_event_def)

lemma strftime_march_1st_1900: "strftime_ymdhm (march_1st 19 0 s) = ''2025-03-01 19:00''"
  by (simp add: strftime_ymdhm_def pad2_def pad4_def digit_def march_1st_def)

lemma strftime_march_1st_1930: "strftime_ymdhm (march_1st 19 30 s) = ''2025-03-01 19:30''"
  by (simp add: strftime_ymdhm_def pad2_def pad4_def digit_def march_1st_def)

lemma quote_AB:
  "quote_event (single_book_event ''A'' ''B'' ko 2 2)
     = Inr (Some (''A'', ''B'', PFloat 2, Some ''x'', PFloat 2, Some ''x'', 1 / 2, 1 / 2))"
  by (simp add: quote_single_book)

lemma quote_CD:
  "quote_event (single_book_event ''C'' ''D'' ko 4 (3 / 2))
     = Inr (Some (''C'', ''D'', PFloat 4, Some ''x'', PFloat (3 / 2), Some ''x'', 3 / 11, 8 / 11))"
  by (simp add: quote_single_book)

lemma quote_EF:
  "quote_event (single_book_event ''E'' ''F'' ko (17 / 10) (12 / 5))
     = Inr (Some (''E'', ''F'', PFloat (17 / 10), Some ''x'', PFloat (12 / 5), Some ''x'',
                  24 / 41, 17 / 41))"
  by (simp add: quote_single_book)

lemma chosen_edge_flat:
  "chosen_edge (choose_side Map.empty HFA (hm, aw, bh, kh, ba, ka, mh, ma))
     = max (logistic HFA - mh) (1 - logistic HFA - ma)"
  using choose_side_edge [OF model_edges_flat] by blast

lemma chosen_edge_AB:
  "chosen_edge (choose_side Map.empty 60
      (''A'', ''B'', PFloat 2, Some ''x'', PFloat 2, Some ''x'', 1 / 2, 1 / 2)) = logistic 60 - 1 / 2"
  using logistic_60_bounds by (simp add: chosen_edge_flat max_def)

lemma chosen_edge_CD:
  "chosen_edge (choose_side Map.empty 60
      (''C'', ''D'', PFloat 4, Some ''x'', PFloat (3 / 2), Some ''x'', 3 / 11, 8 / 11))
     = logistic 60 - 3 / 11"
  using logistic_60_bounds by (simp add: chosen_edge_flat max_def)

lemma chosen_edge_EF:
  "chosen_edge (choose_side Map.empty 60
      (''E'', ''F'', PFloat (17 / 10), Some ''x'', PFloat (12 / 5), Some ''x'', 24 / 41, 17 / 41))
     < 1 / 50"
  using logistic_60_bounds by (simp add: chosen_edge_flat max_def)

lemma body_AB:
  "event_body (1 / 50) MAX_KELLY KELLY_FACTOR BANKROLL now Map.empty 60
      (single_book_event ''A'' ''B'' ko 2 2)
     = Inr (Some (make_row MAX_KELLY KELLY_FACTOR BANKROLL now ko ''A'' ''B''
          (choose_side Map.empty 60
             (''A'', ''B'', PFloat 2, Some ''x'', PFloat 2, Some ''x'', 1 / 2, 1 / 2))))"
  using logistic_60_bounds
  by (simp add: event_body_quote [OF quote_AB] chosen_edge_AB)

lemma body_CD:
  "event_body (1 / 50) MAX_KELLY KELLY_FACTOR BANKROLL now Map.empty 60
      (single_book_event ''C'' ''D'' ko 4 (3 / 2))
     = Inr (Some (make_row MAX_KELLY KELLY_FACTOR BANKROLL now ko ''C'' ''D''
          (choose_side Map.empty 60
             (''C'', ''D'', PFloat 4, Some ''x'', PFloat (3 / 2), Some ''x'', 3 / 11, 8 / 11))))"
  using logistic_60_bounds
  by (simp add: event_body_quote [OF quote_CD] chosen_edge_CD)

lemma body_EF:
  "event_body (1 / 50) MAX_KELLY KELLY_FACTOR BANKROLL now Map.empty 60
      (single_book_event ''E'' ''F'' ko (17 / 10) (12 / 5)) = Inr None"
  using chosen_edge_EF by (simp add: event_body_quote [OF quote_EF])

lemma edge_AB_less_CD:
  "py_round (logistic 60 - 1 / 2) 4 < py_round (logistic 60 - 3 / 11) 4"
  by (rule py_round_gap) simp

subsection \<open>The order of the report\<close>

text \<open>
  Claim C9, as amended. When \<^verbatim>\<open>main\<close> produces a report, it is a rearrangement of the
  collected rows, sorted by ascending printed kick-off (the string
  \<^verbatim>\<open>%Y-%m-%d %H:%M\<close>, to the minute) and, among rows with the same printed kick-off, by
  descending edge as recorded in the row (rounded to four places): of two rows whose
  printed kick-offs differ, the one with the smaller kick-off comes first, whatever the
  edges.
\<close>

theorem C9_output_order:
  "main_picks EDGE_MIN MAX_KELLY KELLY_FACTOR BANKROLL now rs HFA events = Inr out \<longrightarrow>
     (\<exists>rows. collect_rows (event_body EDGE_MIN MAX_KELLY KELLY_FACTOR BANKROLL now rs HFA) events = Inr rows
        \<and> mset out = mset rows)
     \<and> sorted (map (\<lambda>r. (Kickoff r, - Edge r)) out)
     \<and> (\<forall>i j. i < j \<and> j < length out \<longrightarrow>
           Kickoff (out ! i) \<le> Kickoff (out ! j)
           \<and> (Kickoff (out ! i) = Kickoff (out ! j) \<longrightarrow> Edge (out ! j) \<le> Edge (out ! i)))
     \<and> (\<forall>i j. i < length out \<and> j < length out \<and> Kickoff (out ! i) < Kickoff (out ! j) \<longrightarrow> i < j)
     \<and> (\<forall>ko hm aw c.
           Kickoff (make_row MAX_KELLY KELLY_FACTOR BANKROLL now ko hm aw c) = strftime_ymdhm ko
           \<and> Edge (make_row MAX_KELLY KELLY_FACTOR BANKROLL now ko hm aw c) = py_round (chosen_edge c) 4)"
proof
  assume a: "main_picks EDGE_MIN MAX_KELLY KELLY_FACTOR BANKROLL now rs HFA events = Inr out"
  from main_picks_Inr [OF a] obtain rows
    where rows: "collect_rows (event_body EDGE_MIN MAX_KELLY KELLY_FACTOR BANKROLL now rs HFA) events = Inr rows"
      and out: "out = sort_key (\<lambda>r. (Kickoff r, - Edge r)) rows" by blast
  have s: "sorted (map (\<lambda>r. (Kickoff r, - Edge r)) out)" unfolding out by (rule sorted_sort_key)
  have m: "mset out = mset rows" unfolding out by simp
  have o: "\<forall>i j. i < j \<and> j < length out \<longrightarrow>
           Kickoff (out ! i) \<le> Kickoff (out ! j)
           \<and> (Kickoff (out ! i) = Kickoff (out ! j) \<longrightarrow> Edge (out ! j) \<le> Edge (out ! i))"
    using sorted_pick_keys [OF s] by blast
  have p: "\<forall>i j. i < length out \<and> j < length out \<and> Kickoff (out ! i) < Kickoff (out ! j) \<longrightarrow> i < j"
  proof (intro allI impI)
    fix i j assume h: "i < length out \<and> j < length out \<and> Kickoff (out ! i) < Kickoff (out ! j)"
    show "i < j"
    proof (rule ccontr)
      assume "\<not> i < j"
      then consider "j = i" | "j < i" by linarith
      then show False
      proof cases
        case 1 with h show False by simp
      next
        case 2
        with h sorted_pick_keys(1) [OF s 2] have "Kickoff (out ! j) \<le> Kickoff (out ! i)" by simp
        with h show False using leD by blast
      qed
    qed
  qed
  show "(\<exists>rows. collect_rows (event_body EDGE_MIN MAX_KELLY KELLY_FACTOR BANKROLL now rs HFA) events = Inr rows
        \<and> mset out = mset rows)
     \<and> sorted (map (\<lambda>r. (Kickoff r, - Edge r)) out)
     \<and> (\<forall>i j. i < j \<and> j < length out \<longrightarrow>
           Kickoff (out ! i) \<le> Kickoff (out ! j)
           \<and> (Kickoff (out ! i) = Kickoff (out ! j) \<longrightarrow> Edge (out ! j) \<le> Edge (out ! i)))
     \<and> (\<forall>i j. i < length out \<and> j < length out \<and> Kickoff (out ! i) < Kickoff (out ! j) \<longrightarrow> i < j)
     \<and> (\<forall>ko hm aw c.
           Kickoff (make_row MAX_KELLY KELLY_FACTOR BANKROLL now ko hm aw c) = strftime_ymdhm ko
           \<and> Edge (make_row MAX_KELLY KELLY_FACTOR BANKROLL now ko hm aw c) = py_round (chosen_edge c) 4)"
  proof (intro conjI)
    show "\<exists>rows. collect_rows (event_body EDGE_MIN MAX_KELLY KELLY_FACTOR BANKROLL now rs HFA) events = Inr rows
        \<and> mset out = mset rows"
      using rows m by blast
    show "sorted (map (\<lambda>r. (Kickoff r, - Edge r)) out)" by (rule s)
    show "\<forall>i j. i < j \<and> j < length out \<longrightarrow>
           Kickoff (out ! i) \<le> Kickoff (out ! j)
           \<and> (Kickoff (out ! i) = Kickoff (out ! j) \<longrightarrow> Edge (out ! j) \<le> Edge (out ! i))"
      by (rule o)
    show "\<forall>i j. i < length out \<and> j < length out \<and> Kickoff (out ! i) < Kickoff (out ! j) \<longrightarrow> i < j"
      by (rule p)
    show "\<forall>ko hm aw c.
           Kickoff (make_row MAX_KELLY KELLY_FACTOR BANKROLL now ko hm aw c) = strftime_ymdhm ko
           \<and> Edge (make_row MAX_KELLY KELLY_FACTOR BANKROLL now ko hm aw c) = py_round (chosen_edge c) 4"
      by (simp add: make_row_keys)
  qed
qed

text \<open>
  The claim C9 as stated fails for kick-offs within the same minute: the contest A vs B
  kicks off at 19:00:00 and C vs D thirty seconds later, both print as
  \<^verbatim>\<open>2025-03-01 19:00\<close>, and the row of C vs D, whose edge is larger, comes first.
\<close>

theorem C9_output_order_counterexample:
  "dt_less (march_1st 19 0 0) (march_1st 19 0 30)
   \<and> map_sum id (map Match)
       (main_picks (1 / 50) (1 / 50) (1 / 2) 1000 ''2025-03-01 09:00'' Map.empty 60
          [single_book_event ''A'' ''B'' (march_1st 19 0 0) 2 2,
           single_book_event ''C'' ''D'' (march_1st 19 0 30) 4 (3 / 2)])
     = Inr [''C vs D'', ''A vs B'']"
proof -
  define r1 where "r1 = make_row (1 / 50) (1 / 2) 1000 ''2025-03-01 09:00'' (march_1st 19 0 0)
     ''A'' ''B'' (choose_side Map.empty 60
        (''A'', ''B'', PFloat 2, Some ''x'', PFloat 2, Some ''x'', 1 / 2, 1 / 2))"
  define r2 where "r2 = make_row (1 / 50) (1 / 2) 1000 ''2025-03-01 09:00'' (march_1st 19 0 30)
     ''C'' ''D'' (choose_side Map.empty 60
        (''C'', ''D'', PFloat 4, Some ''x'', PFloat (3 / 2), Some ''x'', 3 / 11, 8 / 11))"
  have rows: "collect_rows
      (event_body (1 / 50) (1 / 50) (1 / 2) 1000 ''2025-03-01 09:00'' Map.empty 60)
      [single_book_event ''A'' ''B'' (march_1st 19 0 0) 2 2,
       single_book_event ''C'' ''D'' (march_1st 19 0 30) 4 (3 / 2)] = Inr [r1, r2]"
    by (simp add: body_AB body_CD r1_def r2_def)
  have k: "Kickoff r1 = Kickoff r2"
    by (simp add: r1_def r2_def make_row_keys strftime_march_1st_1900)
  have e: "Edge r1 < Edge r2"
    by (simp add: r1_def r2_def make_row_keys chosen_edge_AB chosen_edge_CD edge_AB_less_CD)
  have "\<not> (Kickoff r1, - Edge r1) \<le> (Kickoff r2, - Edge r2)"
    using k e by (simp add: less_eq_prod_def)
  then have s: "sort_key (\<lambda>r. (Kickoff r, - Edge r)) [r1, r2] = [r2, r1]"
    by (simp only: sort_two if_False)
  have m: "Match r1 = ''A vs B''" "Match r2 = ''C vs D''"
    by (simp_all add: r1_def r2_def make_row_keys)
  have "main_picks (1 / 50) (1 / 50) (1 / 2) 1000 ''2025-03-01 09:00'' Map.empty 60
          [single_book_event ''A'' ''B'' (march_1st 19 0 0) 2 2,
           single_book_event ''C'' ''D'' (march_1st 19 0 30) 4 (3 / 2)] = Inr [r2, r1]"
    unfolding main_picks_def rows by (simp add: sort_values_def s del: sort_key_simps)
  moreover have "dt_less (march_1st 19 0 0) (march_1st 19 0 30)"
    by (simp add: dt_less_def march_1st_def less_prod_def)
  ultimately show ?thesis by (simp add: m)
qed

text \<open>
  C vs D at 19:30 is listed before A vs B at 19:00 in the feed and has the larger edge;
  the report puts A vs B first.
\<close>

theorem C9_output_order_witness:
  "\<exists>out. main_picks (1 / 50) (1 / 50) (1 / 2) 1000 ''2025-03-01 09:00'' Map.empty 60
          [single_book_event ''C'' ''D'' (march_1st 19 30 0) 4 (3 / 2),
           single_book_event ''A'' ''B'' (march_1st 19 0 0) 2 2] = Inr out
     \<and> map Match out = [''A vs B'', ''C vs D'']
     \<and> map Kickoff out = [''2025-03-01 19:00'', ''2025-03-01 19:30'']
     \<and> sorted (map (\<lambda>r. (Kickoff r, - Edge r)) out)"
proof -
  define r1 where "r1 = make_row (1 / 50) (1 / 2) 1000 ''2025-03-01 09:00'' (march_1st 19 0 0)
     ''A'' ''B'' (choose_side Map.empty 60
        (''A'', ''B'', PFloat 2, Some ''x'', PFloat 2, Some ''x'', 1 / 2, 1 / 2))"
  define r2 where "r2 = make_row (1 / 50) (1 / 2) 1000 ''2025-03-01 09:00'' (march_1st 19 30 0)
     ''C'' ''D'' (choose_side Map.empty 60
        (''C'', ''D'', PFloat 4, Some ''x'', PFloat (3 / 2), Some ''x'', 3 / 11, 8 / 11))"
  have rows: "collect_rows
      (event_body (1 / 50) (1 / 50) (1 / 2) 1000 ''2025-03-01 09:00'' Map.empty 60)
      [single_book_event ''C'' ''D'' (march_1st 19 30 0) 4 (3 / 2),
       single_book_event ''A'' ''B'' (march_1st 19 0 0) 2 2] = Inr [r2, r1]"
    by (simp add: body_AB body_CD r1_def r2_def)
  have k: "Kickoff r1 = ''2025-03-01 19:00''" "Kickoff r2 = ''2025-03-01 19:30''"
    by (simp_all add: r1_def r2_def make_row_keys strftime_march_1st_1900 strftime_march_1st_1930)
  have "\<not> (Kickoff r2, - Edge r2) \<le> (Kickoff r1, - Edge r1)"
    unfolding k by (simp add: less_eq_prod_def)
  then have s: "sort_key (\<lambda>r. (Kickoff r, - Edge r)) [r2, r1] = [r1, r2]"
    by (simp only: sort_two if_False)
  have m: "Match r1 = ''A vs B''" "Match r2 = ''C vs D''"
    by (simp_all add: r1_def r2_def make_row_keys)
  have mp: "main_picks (1 / 50) (1 / 50) (1 / 2) 1000 ''2025-03-01 09:00'' Map.empty 60
          [single_book_event ''C'' ''D'' (march_1st 19 30 0) 4 (3 / 2),
           single_book_event ''A'' ''B'' (march_1st 19 0 0) 2 2] = Inr [r1, r2]"
    unfolding main_picks_def rows by (simp add: sort_values_def s del: sort_key_simps)
  from C9_output_order [rule_format, OF mp]
  have "sorted (map (\<lambda>r. (Kickoff r, - Edge r)) [r1, r2])" by blast
  with mp m k show ?thesis by (intro exI [of _ "[r1, r2]"]) simp
qed

subsection \<open>A run in which every contest is dropped\<close>

text \<open>
  Claim C8, at the failing input. With no history (every rating 1500, home-field advantage
  60) and the default threshold 0.02, the only contest of the feed, E vs F at 1.70 and
  2.40, is pricable and both its edges are below the threshold, so the loop body drops it
  (\<^verbatim>\<open>continue\<close>) and no row is collected. The sort of line 155 then raises
  \<^verbatim>\<open>KeyError\<close>, where the claim says the contest is dropped without error; lines 156
  to 161, which write the empty report and print the note about an empty CSV, are not
  reached. The same happens for a feed with no event at all.
\<close>

theorem C8_dropped_contest_raises_KeyError:
  "quote_event (single_book_event ''E'' ''F'' (march_1st 19 0 0) (17 / 10) (12 / 5))
     = Inr (Some (''E'', ''F'', PFloat (17 / 10), Some ''x'', PFloat (12 / 5), Some ''x'',
                  24 / 41, 17 / 41))
   \<and> chosen_edge (choose_side Map.empty 60
         (''E'', ''F'', PFloat (17 / 10), Some ''x'', PFloat (12 / 5), Some ''x'', 24 / 41, 17 / 41))
       < 1 / 50
   \<and> event_body (1 / 50) (1 / 50) (1 / 2) 1000 ''2025-03-01 09:00'' Map.empty 60
        (single_book_event ''E'' ''F'' (march_1st 19 0 0) (17 / 10) (12 / 5)) = Inr None
   \<and> main_picks (1 / 50) (1 / 50) (1 / 2) 1000 ''2025-03-01 09:00'' Map.empty 60
        [single_book_event ''E'' ''F'' (march_1st 19 0 0) (17 / 10) (12 / 5)] = Inl KeyError
   \<and> main_picks (1 / 50) (1 / 50) (1 / 2) 1000 ''2025-03-01 09:00'' Map.empty 60 []
        = Inl KeyError"
proof (intro conjI)
  show "quote_event (single_book_event ''E'' ''F'' (march_1st 19 0 0) (17 / 10) (12 / 5))
     = Inr (Some (''E'', ''F'', PFloat (17 / 10), Some ''x'', PFloat (12 / 5), Some ''x'',
                  24 / 41, 17 / 41))"
    by (rule quote_EF)
  show "chosen_edge (choose_side Map.empty 60
         (''E'', ''F'', PFloat (17 / 10), Some ''x'', PFloat (12 / 5), Some ''x'', 24 / 41, 17 / 41))
       < 1 / 50"
    by (rule chosen_edge_EF)
  show "event_body (1 / 50) (1 / 50) (1 / 2) 1000 ''2025-03-01 09:00'' Map.empty 60
        (single_book_event ''E'' ''F'' (march_1st 19 0 0) (17 / 10) (12 / 5)) = Inr None"
    by (rule body_EF)
  show "main_picks (1 / 50) (1 / 50) (1 / 2) 1000 ''2025-03-01 09:00'' Map.empty 60
        [single_book_event ''E'' ''F'' (march_1st 19 0 0) (17 / 10) (12 / 5)] = Inl KeyError"
    by (simp add: body_EF main_picks_def sort_values_def)
  show "main_picks (1 / 50) (1 / 50) (1 / 2) 1000 ''2025-03-01 09:00'' Map.empty 60 []
        = Inl KeyError"
    by (simp add: main_picks_def sort_values_def)
qed

end
